theory Spec2Isabelle
  imports Complex_Main "HOL-Library.Word"
begin

unbundle bit_operations_syntax

section \<open>Conventions of the embedding\<close>

text \<open>
  The two programs of the repository are \<^verbatim>\<open>jack_midi_clock.c\<close> (the generator) and
  \<^verbatim>\<open>jack_mclk_dump.c\<close> (the analyzer). Their \<^verbatim>\<open>process\<close> callbacks are embedded as
  functions from the state before a cycle and the cycle's input to the state after it and
  the events written.

  \<^item> A C \<^verbatim>\<open>double\<close> (and the \<^verbatim>\<open>float\<close> field \<^verbatim>\<open>beats_per_bar\<close>) is a \<^typ>\<open>real\<close>:
    arithmetic is exact, the rounding of IEEE 754 is not part of the model. A division
    whose IEEE result is an infinity or a NaN has no value of type \<^typ>\<open>real\<close>; the
    model names that outcome instead of using HOL's \<open>x / 0 = 0\<close>.
  \<^item> Frame counts and cycle sizes (\<^verbatim>\<open>jack_nframes_t\<close>) are \<^typ>\<open>nat\<close>, the signed C
    integers are \<^typ>\<open>int\<close>, both without wrap-around; the 64-bit sample counter of
    the analyzer is a \<^typ>\<open>64 word\<close>, a MIDI byte an \<^typ>\<open>8 word\<close>.
  \<^item> The port buffer of a cycle is the list of events written to it, in order; it is
    taken to have room (\<^verbatim>\<open>jack_midi_event_reserve\<close> succeeds).
\<close>

section \<open>The generator: data\<close>

text \<open>
  Modelled from the spec: the JACK headers (\<^verbatim>\<open>jack/types.h\<close>, \<^verbatim>\<open>jack/transport.h\<close>,
  \<^verbatim>\<open>jack/midiport.h\<close>) are not part of the sources. The transport states are the three
  of the specification's data model, the validity bits the two that the generator tests,
  and the position has the fields of the specification's transport snapshot under the
  names the generator uses.
\<close>

datatype jack_transport_state = JackTransportStopped | JackTransportRolling | JackTransportStarting

datatype jack_position_bits = JackPositionBBT | JackBBTFrameOffset

record jack_position =
  frame_rate :: nat
  frame :: nat
  valid :: "jack_position_bits set"
  bar :: int
  beat :: int
  tick :: int
  bar_start_tick :: real
  beats_per_bar :: real
  ticks_per_beat :: real
  beats_per_minute :: real
  bbt_offset :: nat

text \<open>\<^verbatim>\<open>struct bbtpos\<close>, the remembered position.\<close>

record bbtpos =
  bbt_valid :: "jack_position_bits set"
  bbt_bar :: int
  bbt_beat :: int
  bbt_tick :: int
  bbt_bar_start_tick :: real

datatype msg_flag = MSG_NO_TRANSPORT | MSG_NO_CLOCK | MSG_NO_POSITION | MSG_NO_CONT_CLOCK

datatype client_state_t = Init | Run | Exit

text \<open>The command line options (\<^verbatim>\<open>user_bpm\<close>, \<^verbatim>\<open>force_bpm\<close>, \<^verbatim>\<open>msg_filter\<close>).\<close>

record options =
  user_bpm :: real
  force_bpm :: bool
  msg_filter :: "msg_flag set"

text \<open>The application state that \<^verbatim>\<open>process\<close> reads and writes.\<close>

record gen_state =
  m_xstate :: jack_transport_state
  mclk_last_tick :: real
  last_xpos :: bbtpos
  client_state :: client_state_t

text \<open>An event of the port buffer: its sample offset in the cycle and its bytes.\<close>

type_synonym midi_event = "nat \<times> 8 word list"

text \<open>
  What a cycle can do other than return: a double that is not finite, a conversion of a
  double to \<^verbatim>\<open>int\<close> that C leaves undefined, a tick scan that never ends.
\<close>

datatype fault = NonFiniteDouble | UndefinedConversion | NeverReturns

definition MIDI_RT_CLOCK :: "8 word" where "MIDI_RT_CLOCK = 0xF8"
definition MIDI_RT_START :: "8 word" where "MIDI_RT_START = 0xFA"
definition MIDI_RT_CONTINUE :: "8 word" where "MIDI_RT_CONTINUE = 0xFB"
definition MIDI_RT_STOP :: "8 word" where "MIDI_RT_STOP = 0xFC"

section \<open>The generator: operations\<close>

definition send_rt_message :: "midi_event list \<Rightarrow> nat \<Rightarrow> 8 word \<Rightarrow> midi_event list" where
  "send_rt_message port_buf time rt_msg = port_buf @ [(time, [rt_msg])]"

text \<open>
  The conversion of a double to \<^verbatim>\<open>int\<close>: the fraction is discarded (towards zero); C
  defines it only when the result fits 32 bits.
\<close>

definition trunc :: "real \<Rightarrow> int" where
  "trunc x = (if 0 \<le> x then \<lfloor>x\<rfloor> else \<lceil>x\<rceil>)"

definition double_to_int :: "real \<Rightarrow> fault + int" where
  "double_to_int x =
     (if - (2 ^ 31) \<le> trunc x \<and> trunc x < 2 ^ 31 then Inr (trunc x) else Inl UndefinedConversion)"

text \<open>
  The local \<^verbatim>\<open>bcnt\<close> of \<^verbatim>\<open>send_pos_message\<close>. With \<^verbatim>\<open>ticks_per_beat == 0\<close> the quotient
  is an infinity or a NaN.
\<close>

definition bcnt :: "jack_position \<Rightarrow> fault + int" where
  "bcnt xpos =
     (if ticks_per_beat xpos = 0 then Inl NonFiniteDouble
      else double_to_int
        (4 * (of_int (bar xpos - 1) * beats_per_bar xpos + of_int (beat xpos - 1))
         + of_int \<lfloor>4 * of_int (tick xpos) / ticks_per_beat xpos\<rfloor>))"

definition send_pos_message ::
  "options \<Rightarrow> midi_event list \<Rightarrow> jack_position \<Rightarrow> fault + midi_event list" where
  "send_pos_message opts port_buf xpos =
     (if MSG_NO_POSITION \<in> msg_filter opts then Inr port_buf
      else if JackPositionBBT \<notin> valid xpos then Inr port_buf
      else case bcnt xpos of
        Inl e \<Rightarrow> Inl e
      | Inr c \<Rightarrow>
          if c < 0 \<or> c \<ge> 16384 then Inr port_buf
          else Inr (port_buf @
                 [(0, [0xF2, word_of_int (c AND 0x7F), word_of_int (drop_bit 7 c AND 0x7F)])]))"

definition pos_changed :: "bbtpos \<Rightarrow> jack_position \<Rightarrow> int" where
  "pos_changed xp0 xp1 =
     (if JackPositionBBT \<notin> bbt_valid xp0 then - 1
      else if JackPositionBBT \<notin> valid xp1 then - 2
      else if bbt_bar xp0 = bar xp1 \<and> bbt_beat xp0 = beat xp1 \<and> bbt_tick xp0 = tick xp1 then 0
      else 1)"

definition remember_pos :: "bbtpos \<Rightarrow> jack_position \<Rightarrow> bbtpos" where
  "remember_pos xp0 xp1 =
     (if JackPositionBBT \<notin> valid xp1 then xp0
      else \<lparr>bbt_valid = valid xp1, bbt_bar = bar xp1, bbt_beat = beat xp1, bbt_tick = tick xp1,
             bbt_bar_start_tick = bar_start_tick xp1\<rparr>)"

text \<open>
  \<^verbatim>\<open>llrint\<close> in the default rounding mode: to the nearest integer, a tie to the even one.
\<close>

definition llrint :: "real \<Rightarrow> int" where
  "llrint x =
     (let f = \<lfloor>x\<rfloor>; r = x - of_int f
      in if r < 1 / 2 then f else if 1 / 2 < r then f + 1 else if even f then f else f + 1)"

text \<open>
  Lines 174 to 180 of \<^verbatim>\<open>process\<close>: the position update while stopped and located.
\<close>

definition located_update ::
  "options \<Rightarrow> jack_transport_state \<Rightarrow> jack_position \<Rightarrow> gen_state \<Rightarrow> fault + midi_event list" where
  "located_update opts xstate xpos st =
     (if xstate = JackTransportStopped \<and> xstate = m_xstate st
         \<and> pos_changed (last_xpos st) xpos > 0
      then send_pos_message opts [] xpos
      else Inr [])"

text \<open>
  The \<^verbatim>\<open>switch\<close> of lines 184 to 218. The case \<^verbatim>\<open>JackTransportRolling\<close> has no
  \<^verbatim>\<open>break\<close> and falls through to the case \<^verbatim>\<open>JackTransportStarting\<close>; its
  \<^verbatim>\<open>default\<close> case is for states outside the three of the data model.
\<close>

definition transport_switch ::
  "options \<Rightarrow> jack_transport_state \<Rightarrow> jack_position \<Rightarrow> gen_state \<Rightarrow> midi_event list
     \<Rightarrow> fault + midi_event list" where
  "transport_switch opts xstate xpos st port_buf =
     (case xstate of
        JackTransportStopped \<Rightarrow>
          send_pos_message opts
            (if MSG_NO_TRANSPORT \<notin> msg_filter opts
             then send_rt_message port_buf 0 MIDI_RT_STOP else port_buf)
            xpos
      | _ \<Rightarrow>
          if m_xstate st = JackTransportStarting then Inr port_buf
          else if frame xpos = 0 then
            Inr (if MSG_NO_TRANSPORT \<notin> msg_filter opts
                 then send_rt_message port_buf 0 MIDI_RT_START else port_buf)
          else
            Inr (if MSG_NO_TRANSPORT \<notin> msg_filter opts
                 then send_rt_message port_buf 0 MIDI_RT_CONTINUE else port_buf))"

text \<open>
  Lines 183 to 229: on a change of the transport state, the switch, the initial beat
  tick, and the two assignments \<^verbatim>\<open>mclk_last_tick = xpos.frame; m_xstate = xstate\<close>.
\<close>

definition transport_edge ::
  "options \<Rightarrow> jack_transport_state \<Rightarrow> jack_position \<Rightarrow> gen_state \<Rightarrow> midi_event list
     \<Rightarrow> fault + (gen_state \<times> midi_event list)" where
  "transport_edge opts xstate xpos st port_buf =
     (if xstate \<noteq> m_xstate st then
        (case transport_switch opts xstate xpos st port_buf of
           Inl e \<Rightarrow> Inl e
         | Inr buf1 \<Rightarrow>
             Inr (st\<lparr>mclk_last_tick := of_nat (frame xpos), m_xstate := xstate\<rparr>,
                  if xstate = JackTransportRolling \<and> MSG_NO_CLOCK \<notin> msg_filter opts
                  then send_rt_message buf1 0 MIDI_RT_CLOCK else buf1))
      else Inr (st, port_buf))"

text \<open>
  Lines 242 to 256, the clock tick interval: the samples per beat and the frame offset
  in force, or no tempo at all. A tempo of 0 from the transport makes the quotient an
  infinity or a NaN.
\<close>

datatype tempo_choice = Tempo real nat | NoTempo | NonFiniteTempo

definition samples_per_beat :: "options \<Rightarrow> jack_position \<Rightarrow> tempo_choice" where
  "samples_per_beat opts xpos =
     (if force_bpm opts \<and> user_bpm opts > 0 then
        Tempo (of_nat (frame_rate xpos) * 60 / user_bpm opts) 0
      else if JackPositionBBT \<in> valid xpos then
        (if beats_per_minute xpos = 0 then NonFiniteTempo
         else Tempo (of_nat (frame_rate xpos) * 60 / beats_per_minute xpos)
                (if JackBBTFrameOffset \<in> valid xpos then bbt_offset xpos else 0))
      else if user_bpm opts > 0 then
        Tempo (of_nat (frame_rate xpos) * 60 / user_bpm opts) 0
      else NoTempo)"

text \<open>
  The loop of lines 271 to 279. It may run forever; not returning is \<open>None\<close>.
\<close>

partial_function (option) tick_loop ::
  "real \<Rightarrow> nat \<Rightarrow> nat \<Rightarrow> nat \<Rightarrow> real \<Rightarrow> midi_event list \<Rightarrow> (real \<times> midi_event list) option" where
  "tick_loop clock_tick_interval xframe offs nframes last_tick port_buf =
     (let next_tick = last_tick + clock_tick_interval;
          next_tick_offset = llrint next_tick - int xframe - int offs
      in if next_tick_offset \<ge> int nframes then Some (last_tick, port_buf)
         else tick_loop clock_tick_interval xframe offs nframes next_tick
                (if next_tick_offset \<ge> 0
                 then send_rt_message port_buf (nat next_tick_offset) MIDI_RT_CLOCK
                 else port_buf))"

text \<open>Lines 231 to 280: the gates, the tick interval and the loop.\<close>

definition tick_scheduler ::
  "options \<Rightarrow> nat \<Rightarrow> jack_transport_state \<Rightarrow> jack_position \<Rightarrow> gen_state \<Rightarrow> midi_event list
     \<Rightarrow> fault + (gen_state \<times> midi_event list)" where
  "tick_scheduler opts nframes xstate xpos st port_buf =
     (if xstate \<noteq> JackTransportRolling \<and> MSG_NO_CONT_CLOCK \<in> msg_filter opts then Inr (st, port_buf)
      else if MSG_NO_CLOCK \<in> msg_filter opts then Inr (st, port_buf)
      else case samples_per_beat opts xpos of
        NoTempo \<Rightarrow> Inr (st, port_buf)
      | NonFiniteTempo \<Rightarrow> Inl NonFiniteDouble
      | Tempo spb offs \<Rightarrow>
          (case tick_loop (spb / 1 / 24) (frame xpos) offs nframes (mclk_last_tick st) port_buf of
             None \<Rightarrow> Inl NeverReturns
           | Some (t, buf) \<Rightarrow> Inr (st\<lparr>mclk_last_tick := t\<rparr>, buf)))"

text \<open>The process callback of the generator, for one cycle of \<open>nframes\<close> samples.\<close>

definition process ::
  "options \<Rightarrow> nat \<Rightarrow> jack_transport_state \<Rightarrow> jack_position \<Rightarrow> gen_state
     \<Rightarrow> fault + (gen_state \<times> midi_event list)" where
  "process opts nframes xstate xpos st =
     (if client_state st \<noteq> Run then Inr (st, [])
      else case located_update opts xstate xpos st of
        Inl e \<Rightarrow> Inl e
      | Inr buf0 \<Rightarrow>
          (case transport_edge opts xstate xpos (st\<lparr>last_xpos := remember_pos (last_xpos st) xpos\<rparr>) buf0 of
             Inl e \<Rightarrow> Inl e
           | Inr (st1, buf1) \<Rightarrow> tick_scheduler opts nframes xstate xpos st1 buf1))"

text \<open>
  The host calls \<^verbatim>\<open>process\<close> once per cycle: a run over the snapshots of consecutive
  cycles, with the events of each cycle.
\<close>

fun cycles ::
  "options \<Rightarrow> nat \<Rightarrow> gen_state \<Rightarrow> (jack_transport_state \<times> jack_position) list
     \<Rightarrow> fault + (gen_state \<times> midi_event list list)" where
  "cycles opts nframes st [] = Inr (st, [])"
| "cycles opts nframes st ((xstate, xpos) # rest) =
     (case process opts nframes xstate xpos st of
        Inl e \<Rightarrow> Inl e
      | Inr (st1, evs) \<Rightarrow>
          (case cycles opts nframes st1 rest of
             Inl e \<Rightarrow> Inl e
           | Inr (st2, outs) \<Rightarrow> Inr (st2, evs # outs)))"

section \<open>The analyzer: data and operations\<close>

text \<open>\<^verbatim>\<open>timenfo\<close>: a message byte and the sample time of its arrival.\<close>

record timenfo =
  msg :: "8 word"
  tme :: "64 word"

text \<open>
  The fields of \<^verbatim>\<open>jack_midi_event_t\<close>: the offset in the cycle and the bytes, \<^verbatim>\<open>size\<close>
  being the length of the list.
\<close>

record jack_midi_event =
  time :: "32 word"
  buffer :: "8 word list"



text \<open>
  What the consumer prints for one entry: the tempo, or an infinity or a NaN when the
  divisor is zero.
\<close>

datatype report = Bpm real | NotFinite

definition bpm_report :: "32 word \<Rightarrow> timenfo \<Rightarrow> timenfo \<Rightarrow> report" where
  "bpm_report j_samplerate pt t =
     (let samples_per_quarter_note = real (unat (tme t - tme pt)) * 24
      in if samples_per_quarter_note = 0 then NotFinite
         else Bpm (real (unat j_samplerate) * 60 / samples_per_quarter_note))"

text \<open>
  The inner loop of \<^verbatim>\<open>main\<close> (lines 263 to 275) over the entries read from the queue:
  the previous entry after it and the lines printed, each a tempo and a sample time.
\<close>

fun drain :: "32 word \<Rightarrow> timenfo \<Rightarrow> timenfo list \<Rightarrow> timenfo \<times> (report \<times> 64 word) list" where
  "drain j_samplerate pt [] = (pt, [])"
| "drain j_samplerate pt (t # ts) =
     (let r = drain j_samplerate t ts
      in (fst r, (if msg t = 0xF8 then [(bpm_report j_samplerate pt t, tme t)] else []) @ snd r))"

text \<open>\<^verbatim>\<open>memset(&pt, 0, sizeof(timenfo))\<close>: the previous entry before the first one.\<close>

definition zero_timenfo :: timenfo where
  "zero_timenfo = \<lparr>msg = 0, tme = 0\<rparr>"

section \<open>Notions used in the statements\<close>

text \<open>
  The cycle-relative offset of the \<open>j\<close>-th tick after \<open>last_tick\<close>, as the loop computes
  it, and the events the loop writes when it scans \<open>k\<close> ticks: one clock byte for each
  scanned tick whose offset is not negative.
\<close>

definition tick_offset :: "real \<Rightarrow> nat \<Rightarrow> nat \<Rightarrow> real \<Rightarrow> nat \<Rightarrow> int" where
  "tick_offset cti xframe offs last_tick j = llrint (last_tick + of_nat j * cti) - int xframe - int offs"

definition scanned_ticks :: "real \<Rightarrow> nat \<Rightarrow> nat \<Rightarrow> real \<Rightarrow> nat \<Rightarrow> midi_event list" where
  "scanned_ticks cti xframe offs last_tick k =
     map (\<lambda>j. (nat (tick_offset cti xframe offs last_tick j), [MIDI_RT_CLOCK]))
       (filter (\<lambda>j. 0 \<le> tick_offset cti xframe offs last_tick j) [1..<Suc k])"

text \<open>
  The number of one-byte messages \<open>m\<close> among the events of a cycle, and the number of
  Start and Continue messages together.
\<close>

definition count_msg :: "8 word \<Rightarrow> midi_event list \<Rightarrow> nat" where
  "count_msg m evs = length (filter (\<lambda>e. snd e = [m]) evs)"

definition start_or_continue :: "midi_event list \<Rightarrow> nat" where
  "start_or_continue evs = count_msg MIDI_RT_START evs + count_msg MIDI_RT_CONTINUE evs"

text \<open>
  A sufficient condition for a cycle to return: the tempo in force, if any, is finite and
  positive, and the conversion of the beat count is defined where a song position may be
  sent.
\<close>

definition well_formed :: "options \<Rightarrow> jack_position \<Rightarrow> bool" where
  "well_formed opts xpos \<longleftrightarrow>
     (case samples_per_beat opts xpos of Tempo spb offs \<Rightarrow> 0 < spb | NoTempo \<Rightarrow> True | NonFiniteTempo \<Rightarrow> False)
     \<and> (case bcnt xpos of Inr c \<Rightarrow> True
         | Inl e \<Rightarrow> JackPositionBBT \<notin> valid xpos \<or> MSG_NO_POSITION \<in> msg_filter opts)"


section \<open>Sample inputs\<close>

text \<open>
  The options the program starts with when no switch is given, and the default tempo of
  60 beats per minute forced with \<^verbatim>\<open>-b 60 -B\<close>.
\<close>

definition default_options :: options where
  "default_options = \<lparr>user_bpm = 0, force_bpm = False, msg_filter = {MSG_NO_CONT_CLOCK}\<rparr>"

definition forced_options :: options where
  "forced_options = \<lparr>user_bpm = 60, force_bpm = True, msg_filter = {MSG_NO_CONT_CLOCK}\<rparr>"

text \<open>
  A position with a tempo map of 120 beats per minute, 4 beats per bar and 1920 ticks per
  beat at 48000 samples per second.
\<close>

definition sample_position :: "nat \<Rightarrow> int \<Rightarrow> int \<Rightarrow> int \<Rightarrow> jack_position" where
  "sample_position f b bt tk =
     \<lparr>frame_rate = 48000, frame = f, valid = {JackPositionBBT}, bar = b, beat = bt, tick = tk,
      bar_start_tick = 0, beats_per_bar = 4, ticks_per_beat = 1920, beats_per_minute = 120,
      bbt_offset = 0\<rparr>"

text \<open>The state the program starts with, once \<^verbatim>\<open>main\<close> has set \<^verbatim>\<open>client_state = Run\<close>.\<close>

definition initial_state :: gen_state where
  "initial_state =
     \<lparr>m_xstate = JackTransportStopped, mclk_last_tick = 0,
      last_xpos = \<lparr>bbt_valid = {}, bbt_bar = 0, bbt_beat = 0, bbt_tick = 0, bbt_bar_start_tick = 0\<rparr>,
      client_state = Run\<rparr>"

text \<open>A run through two Starting cycles into Rolling and back to Stopped.\<close>

definition demo_run :: "(jack_transport_state \<times> jack_position) list" where
  "demo_run =
     [(JackTransportStopped, sample_position 0 1 1 0),
      (JackTransportStarting, sample_position 0 1 1 0),
      (JackTransportStarting, sample_position 0 1 1 0),
      (JackTransportRolling, sample_position 0 1 1 0),
      (JackTransportRolling, sample_position 512 1 1 40),
      (JackTransportStopped, sample_position 1024 1 1 81)]"




section \<open>The tick scan\<close>

lemma llrint_lower: "x - 1 / 2 \<le> of_int (llrint x)"
  unfolding llrint_def Let_def by (auto; linarith)


lemma llrint_mono: "x \<le> y \<Longrightarrow> llrint x \<le> llrint y"
proof (cases "\<lfloor>x\<rfloor> = \<lfloor>y\<rfloor>")
  case True
  assume "x \<le> y"
  with True show ?thesis unfolding llrint_def Let_def by auto
next
  case False
  assume "x \<le> y"
  then have "\<lfloor>x\<rfloor> \<le> \<lfloor>y\<rfloor>" by (rule floor_mono)
  with False have "\<lfloor>x\<rfloor> + 1 \<le> \<lfloor>y\<rfloor>" by simp
  moreover have "llrint x \<le> \<lfloor>x\<rfloor> + 1" unfolding llrint_def Let_def by auto
  moreover have "\<lfloor>y\<rfloor> \<le> llrint y" unfolding llrint_def Let_def by auto
  ultimately show ?thesis by linarith
qed

lemma tick_loop_stop:
  "int nframes \<le> llrint (last_tick + cti) - int xframe - int offs \<Longrightarrow>
   tick_loop cti xframe offs nframes last_tick buf = Some (last_tick, buf)"
  by (subst tick_loop.simps) simp

lemma tick_loop_emit:
  "llrint (last_tick + cti) - int xframe - int offs < int nframes \<Longrightarrow>
   0 \<le> llrint (last_tick + cti) - int xframe - int offs \<Longrightarrow>
   tick_loop cti xframe offs nframes last_tick buf =
   tick_loop cti xframe offs nframes (last_tick + cti)
     (buf @ [(nat (llrint (last_tick + cti) - int xframe - int offs), [MIDI_RT_CLOCK])])"
  by (subst tick_loop.simps) (simp add: send_rt_message_def Let_def)

lemma tick_loop_skip:
  "llrint (last_tick + cti) - int xframe - int offs < 0 \<Longrightarrow>
   tick_loop cti xframe offs nframes last_tick buf =
   tick_loop cti xframe offs nframes (last_tick + cti) buf"
  by (subst tick_loop.simps) (simp add: Let_def)

lemma tick_offset_shift:
  "tick_offset cti xframe offs (last_tick + cti) j = tick_offset cti xframe offs last_tick (Suc j)"
  by (simp add: tick_offset_def algebra_simps)

lemma upt_1_Suc_Suc: "[1..<Suc (Suc k)] = 1 # map Suc [1..<Suc k]"
  by (simp add: map_Suc_upt upt_conv_Cons del: upt_Suc)

lemma scanned_ticks_Suc:
  "scanned_ticks cti xframe offs last_tick (Suc k) =
     (if 0 \<le> tick_offset cti xframe offs last_tick 1
      then [(nat (tick_offset cti xframe offs last_tick 1), [MIDI_RT_CLOCK])] else [])
     @ scanned_ticks cti xframe offs (last_tick + cti) k"
  unfolding scanned_ticks_def upt_1_Suc_Suc
  by (simp add: filter_map comp_def tick_offset_shift del: upt_Suc)

lemma scanned_ticks_0: "scanned_ticks cti xframe offs last_tick 0 = []"
  by (simp add: scanned_ticks_def)

lemma tick_loop_total_aux:
  assumes "0 < cti"
  shows "nat \<lceil>(of_nat nframes + of_nat xframe + of_nat offs + 1 / 2 - last_tick) / cti\<rceil> \<le> m \<Longrightarrow>
     \<exists>k. tick_loop cti xframe offs nframes last_tick buf
            = Some (last_tick + of_nat k * cti, buf @ scanned_ticks cti xframe offs last_tick k)
        \<and> (\<forall>j. 1 \<le> j \<and> j \<le> k \<longrightarrow> tick_offset cti xframe offs last_tick j < int nframes)
        \<and> int nframes \<le> tick_offset cti xframe offs last_tick (Suc k)"
proof (induction m arbitrary: last_tick buf)
  case 0
  then have "(of_nat nframes + of_nat xframe + of_nat offs + 1 / 2 - last_tick) / cti \<le> 0"
    by (simp add: ceiling_le_zero)
  with assms have "of_nat nframes + of_nat xframe + of_nat offs + 1 / 2 \<le> last_tick"
    by (simp add: divide_le_0_iff)
  with assms llrint_lower[of "last_tick + cti"]
  have "real nframes + real xframe + real offs < of_int (llrint (last_tick + cti))" by linarith
  then have stop: "int nframes \<le> llrint (last_tick + cti) - int xframe - int offs" by linarith
  show ?case
    by (rule exI[of _ 0]) (use stop in \<open>simp add: tick_loop_stop scanned_ticks_0 tick_offset_def\<close>)
next
  case (Suc m)
  let ?o = "llrint (last_tick + cti) - int xframe - int offs"
  show ?case
  proof (cases "int nframes \<le> ?o")
    case True
    show ?thesis
      by (rule exI[of _ 0]) (use True in \<open>simp add: tick_loop_stop scanned_ticks_0 tick_offset_def\<close>)
  next
    case False
    have "(of_nat nframes + of_nat xframe + of_nat offs + 1 / 2 - (last_tick + cti)) / cti
        = (of_nat nframes + of_nat xframe + of_nat offs + 1 / 2 - last_tick) / cti - 1"
      using assms by (simp add: field_simps)
    then have "nat \<lceil>(of_nat nframes + of_nat xframe + of_nat offs + 1 / 2 - (last_tick + cti)) / cti\<rceil> \<le> m"
      using Suc.prems by simp linarith
    from Suc.IH[OF this] obtain k where
      k: "\<And>b. True" and
      run: "tick_loop cti xframe offs nframes (last_tick + cti)
              (if 0 \<le> ?o then buf @ [(nat ?o, [MIDI_RT_CLOCK])] else buf)
            = Some (last_tick + cti + of_nat k * cti,
                (if 0 \<le> ?o then buf @ [(nat ?o, [MIDI_RT_CLOCK])] else buf)
                  @ scanned_ticks cti xframe offs (last_tick + cti) k)"
      and below: "\<forall>j. 1 \<le> j \<and> j \<le> k \<longrightarrow> tick_offset cti xframe offs (last_tick + cti) j < int nframes"
      and stop: "int nframes \<le> tick_offset cti xframe offs (last_tick + cti) (Suc k)"
      by blast
    have o1: "tick_offset cti xframe offs last_tick 1 = ?o" by (simp add: tick_offset_def)
    have step: "tick_loop cti xframe offs nframes last_tick buf
       = tick_loop cti xframe offs nframes (last_tick + cti)
              (if 0 \<le> ?o then buf @ [(nat ?o, [MIDI_RT_CLOCK])] else buf)"
      using False by (cases "0 \<le> ?o") (simp_all add: tick_loop_emit tick_loop_skip)
    have below': "\<forall>j. 1 \<le> j \<and> j \<le> Suc k \<longrightarrow> tick_offset cti xframe offs last_tick j < int nframes"
    proof (intro allI impI)
      fix j assume j: "1 \<le> j \<and> j \<le> Suc k"
      show "tick_offset cti xframe offs last_tick j < int nframes"
      proof (cases "j = 1")
        case True with False o1 show ?thesis by simp
      next
        case False
        with j obtain i where "j = Suc i" "1 \<le> i" "i \<le> k" by (cases j) auto
        with below show ?thesis by (simp add: tick_offset_shift)
      qed
    qed
    have res: "tick_loop cti xframe offs nframes last_tick buf
       = Some (last_tick + cti + of_nat k * cti,
                (if 0 \<le> ?o then buf @ [(nat ?o, [MIDI_RT_CLOCK])] else buf)
                  @ scanned_ticks cti xframe offs (last_tick + cti) k)"
      using step run by simp
    have pos: "last_tick + cti + of_nat k * cti = last_tick + of_nat (Suc k) * cti"
      by (simp add: algebra_simps)
    have evs: "(if 0 \<le> ?o then buf @ [(nat ?o, [MIDI_RT_CLOCK])] else buf)
                  @ scanned_ticks cti xframe offs (last_tick + cti) k
             = buf @ scanned_ticks cti xframe offs last_tick (Suc k)"
      unfolding scanned_ticks_Suc o1 by simp
    have stop': "int nframes \<le> tick_offset cti xframe offs last_tick (Suc (Suc k))"
      using stop by (simp add: tick_offset_shift)
    show ?thesis
      using res below' stop' unfolding pos evs by blast
  qed
qed

lemma tick_loop_total:
  assumes "0 < cti"
  shows "\<exists>k. tick_loop cti xframe offs nframes last_tick buf
            = Some (last_tick + of_nat k * cti, buf @ scanned_ticks cti xframe offs last_tick k)
        \<and> (\<forall>j. 1 \<le> j \<and> j \<le> k \<longrightarrow> tick_offset cti xframe offs last_tick j < int nframes)
        \<and> int nframes \<le> tick_offset cti xframe offs last_tick (Suc k)"
  using tick_loop_total_aux[OF assms order_refl] .

lemma tick_loop_nonpositive:
  assumes "tick_loop cti xframe offs nframes last_tick buf = Some y"
  shows "cti \<le> 0 \<longrightarrow>
           int nframes \<le> llrint (last_tick + cti) - int xframe - int offs \<and> y = (last_tick, buf)"
  using assms
proof (induction rule: tick_loop.raw_induct[rotated 1, consumes 1])
  case (1 tick_loop' cti xframe offs nframes last_tick buf y)
  show ?case
  proof (intro impI)
    assume neg: "cti \<le> 0"
    show "int nframes \<le> llrint (last_tick + cti) - int xframe - int offs \<and> y = (last_tick, buf)"
    proof (cases "int nframes \<le> llrint (last_tick + cti) - int xframe - int offs")
      case True
      with 1(2) show ?thesis by (simp add: Let_def)
    next
      case False
      with 1(2) obtain b where "tick_loop' cti xframe offs nframes (last_tick + cti) b = Some y"
        by (simp add: Let_def)
      from 1(1)[OF this] neg
      have "int nframes \<le> llrint (last_tick + cti + cti) - int xframe - int offs" by simp
      moreover have "llrint (last_tick + cti + cti) \<le> llrint (last_tick + cti)"
        using neg by (intro llrint_mono) simp
      ultimately show ?thesis using False by linarith
    qed
  qed
qed

lemma tick_loop_monotone:
  assumes "tick_loop cti xframe offs nframes last_tick buf = Some (t, b)"
  shows "last_tick \<le> t"
proof (cases "0 < cti")
  case True
  from tick_loop_total[OF True, of xframe offs nframes last_tick buf] assms
  obtain k where "t = last_tick + of_nat k * cti" by auto
  with True show ?thesis by simp
next
  case False
  with tick_loop_nonpositive[OF assms] show ?thesis by simp
qed

section \<open>The song position\<close>




















section \<open>The transport state machine\<close>

lemma tick_loop_Some:
  assumes "tick_loop cti xframe offs nframes last_tick buf = Some (t, b)"
  shows "\<exists>k. t = last_tick + of_nat k * cti \<and> b = buf @ scanned_ticks cti xframe offs last_tick k
            \<and> last_tick \<le> t"
proof (cases "0 < cti")
  case True
  from tick_loop_total[OF True, of xframe offs nframes last_tick buf] assms
  obtain k where "t = last_tick + of_nat k * cti" "b = buf @ scanned_ticks cti xframe offs last_tick k"
    by auto
  with True show ?thesis by auto
next
  case False
  with tick_loop_nonpositive[OF assms] have "t = last_tick" "b = buf" by simp_all
  then show ?thesis by (intro exI[of _ 0]) (simp add: scanned_ticks_0)
qed

lemma count_msg_append: "count_msg m (xs @ ys) = count_msg m xs + count_msg m ys"
  by (simp add: count_msg_def)

lemma count_msg_Nil: "count_msg m [] = 0"
  by (simp add: count_msg_def)

lemma count_msg_scanned:
  "m \<noteq> MIDI_RT_CLOCK \<Longrightarrow> count_msg m (scanned_ticks cti xframe offs last_tick k) = 0"
  by (simp add: count_msg_def scanned_ticks_def)

lemma tick_scheduler_cases:
  "tick_scheduler opts nframes xstate xpos st buf = Inr (st, buf)
   \<or> tick_scheduler opts nframes xstate xpos st buf = Inl NonFiniteDouble
   \<or> (\<exists>spb offs. samples_per_beat opts xpos = Tempo spb offs \<and>
        tick_scheduler opts nframes xstate xpos st buf =
          (case tick_loop (spb / 1 / 24) (frame xpos) offs nframes (mclk_last_tick st) buf of
             None \<Rightarrow> Inl NeverReturns
           | Some (t, b) \<Rightarrow> Inr (st\<lparr>mclk_last_tick := t\<rparr>, b)))"
  by (cases "samples_per_beat opts xpos") (simp_all add: tick_scheduler_def)

lemma tick_scheduler_Inr:
  assumes "tick_scheduler opts nframes xstate xpos st buf = Inr (st', b)"
  shows "\<exists>k cti offs. st' = st\<lparr>mclk_last_tick := mclk_last_tick st + of_nat k * cti\<rparr>
           \<and> b = buf @ scanned_ticks cti (frame xpos) offs (mclk_last_tick st) k
           \<and> mclk_last_tick st \<le> mclk_last_tick st'"
proof -
  from tick_scheduler_cases[of opts nframes xstate xpos st buf]
  consider (gate) "tick_scheduler opts nframes xstate xpos st buf = Inr (st, buf)"
    | (fault) "tick_scheduler opts nframes xstate xpos st buf = Inl NonFiniteDouble"
    | (loop) spb offs where
        "tick_scheduler opts nframes xstate xpos st buf =
          (case tick_loop (spb / 1 / 24) (frame xpos) offs nframes (mclk_last_tick st) buf of
             None \<Rightarrow> Inl NeverReturns
           | Some (t, b) \<Rightarrow> Inr (st\<lparr>mclk_last_tick := t\<rparr>, b))"
    by blast
  then show ?thesis
  proof cases
    case gate
    with assms have eq: "st' = st" "b = buf" by simp_all
    have "st = st\<lparr>mclk_last_tick := mclk_last_tick st + of_nat 0 * 0\<rparr>" by simp
    moreover have "buf = buf @ scanned_ticks 0 (frame xpos) 0 (mclk_last_tick st) 0"
      by (simp add: scanned_ticks_0)
    ultimately show ?thesis unfolding eq by blast
  next
    case fault
    with assms show ?thesis by simp
  next
    case loop
    show ?thesis
    proof (cases "tick_loop (spb / 1 / 24) (frame xpos) offs nframes (mclk_last_tick st) buf")
      case None
      with loop assms show ?thesis by simp
    next
      case (Some r)
      obtain t b' where r: "r = (t, b')" by (cases r)
      from loop assms Some r have eq: "st' = st\<lparr>mclk_last_tick := t\<rparr>" "b = b'" by simp_all
      from tick_loop_Some[OF Some[unfolded r]] obtain k where
        "t = mclk_last_tick st + of_nat k * (spb / 1 / 24)"
        "b' = buf @ scanned_ticks (spb / 1 / 24) (frame xpos) offs (mclk_last_tick st) k"
        "mclk_last_tick st \<le> t" by blast
      then show ?thesis unfolding eq by (intro exI[of _ k] exI[of _ "spb / 1 / 24"] exI[of _ offs]) simp
    qed
  qed
qed

lemma count_msg_send_pos:
  assumes "send_pos_message opts buf xpos = Inr b"
  shows "count_msg m b = count_msg m buf"
  using assms
  by (auto simp: send_pos_message_def count_msg_def split: if_splits sum.splits)

lemma located_update_count:
  assumes "located_update opts xstate xpos st = Inr b"
  shows "count_msg m b = 0"
  using assms count_msg_send_pos[of opts "[]" xpos b m]
  by (auto simp: located_update_def count_msg_Nil split: if_splits)

lemma rt_distinct:
  "MIDI_RT_STOP \<noteq> MIDI_RT_CLOCK" "MIDI_RT_START \<noteq> MIDI_RT_CLOCK" "MIDI_RT_CONTINUE \<noteq> MIDI_RT_CLOCK"
  "MIDI_RT_STOP \<noteq> MIDI_RT_START" "MIDI_RT_STOP \<noteq> MIDI_RT_CONTINUE" "MIDI_RT_START \<noteq> MIDI_RT_CONTINUE"
  by (simp_all add: MIDI_RT_STOP_def MIDI_RT_CLOCK_def MIDI_RT_START_def MIDI_RT_CONTINUE_def)

lemma count_msg_send_rt:
  "count_msg m (send_rt_message buf t r) = count_msg m buf + (if r = m then 1 else 0)"
  by (simp add: count_msg_def send_rt_message_def)

lemma transport_switch_stop_count:
  assumes "transport_switch opts xstate xpos st buf = Inr b"
  shows "count_msg MIDI_RT_STOP b = count_msg MIDI_RT_STOP buf
           + (if xstate = JackTransportStopped \<and> MSG_NO_TRANSPORT \<notin> msg_filter opts then 1 else 0)"
proof (cases xstate)
  case JackTransportStopped
  with assms count_msg_send_pos[of opts _ xpos b MIDI_RT_STOP] show ?thesis
    by (auto simp: transport_switch_def count_msg_send_rt split: if_splits)
next
  case JackTransportRolling
  with assms rt_distinct show ?thesis
    by (auto simp: transport_switch_def count_msg_send_rt split: if_splits)
next
  case JackTransportStarting
  with assms rt_distinct show ?thesis
    by (auto simp: transport_switch_def count_msg_send_rt split: if_splits)
qed

lemma transport_switch_start_count:
  assumes "transport_switch opts xstate xpos st buf = Inr b"
  shows "count_msg MIDI_RT_START b + count_msg MIDI_RT_CONTINUE b
         = count_msg MIDI_RT_START buf + count_msg MIDI_RT_CONTINUE buf
           + (if xstate \<noteq> JackTransportStopped \<and> m_xstate st \<noteq> JackTransportStarting
                 \<and> MSG_NO_TRANSPORT \<notin> msg_filter opts then 1 else 0)"
proof (cases xstate)
  case JackTransportStopped
  with assms count_msg_send_pos[of opts _ xpos b MIDI_RT_START]
    count_msg_send_pos[of opts _ xpos b MIDI_RT_CONTINUE] rt_distinct show ?thesis
    by (auto simp: transport_switch_def count_msg_send_rt split: if_splits)
next
  case JackTransportRolling
  with assms rt_distinct show ?thesis
    by (auto simp: transport_switch_def count_msg_send_rt split: if_splits)
next
  case JackTransportStarting
  with assms rt_distinct show ?thesis
    by (auto simp: transport_switch_def count_msg_send_rt split: if_splits)
qed

lemma transport_edge_Inr:
  assumes "transport_edge opts xstate xpos st buf = Inr (st1, b1)"
  shows "m_xstate st1 = xstate \<and> client_state st1 = client_state st
       \<and> last_xpos st1 = last_xpos st
       \<and> mclk_last_tick st1 = (if xstate \<noteq> m_xstate st then of_nat (frame xpos) else mclk_last_tick st)
       \<and> count_msg MIDI_RT_STOP b1 = count_msg MIDI_RT_STOP buf
           + (if xstate = JackTransportStopped \<and> m_xstate st \<noteq> JackTransportStopped
                 \<and> MSG_NO_TRANSPORT \<notin> msg_filter opts then 1 else 0)
       \<and> count_msg MIDI_RT_START b1 + count_msg MIDI_RT_CONTINUE b1
         = count_msg MIDI_RT_START buf + count_msg MIDI_RT_CONTINUE buf
           + (if xstate \<noteq> JackTransportStopped \<and> xstate \<noteq> m_xstate st
                 \<and> m_xstate st \<noteq> JackTransportStarting
                 \<and> MSG_NO_TRANSPORT \<notin> msg_filter opts then 1 else 0)"
proof (cases "xstate = m_xstate st")
  case True
  with assms show ?thesis by (simp add: transport_edge_def)
next
  case False
  with assms obtain b where sw: "transport_switch opts xstate xpos st buf = Inr b"
    and st1: "st1 = st\<lparr>mclk_last_tick := of_nat (frame xpos), m_xstate := xstate\<rparr>"
    and b1: "b1 = (if xstate = JackTransportRolling \<and> MSG_NO_CLOCK \<notin> msg_filter opts
                  then send_rt_message b 0 MIDI_RT_CLOCK else b)"
    by (auto simp: transport_edge_def split: sum.splits)
  from transport_switch_stop_count[OF sw] transport_switch_start_count[OF sw] False rt_distinct
  show ?thesis unfolding st1 b1
    by (auto simp: count_msg_send_rt)
qed

lemma send_pos_message_returns:
  assumes "well_formed opts xpos"
  shows "\<exists>b. send_pos_message opts buf xpos = Inr b"
  using assms by (auto simp: well_formed_def send_pos_message_def split: sum.splits)

lemma located_update_returns:
  assumes "well_formed opts xpos"
  shows "\<exists>b. located_update opts xstate xpos st = Inr b"
  using send_pos_message_returns[OF assms] by (simp add: located_update_def)

lemma transport_switch_returns:
  assumes "well_formed opts xpos"
  shows "\<exists>b. transport_switch opts xstate xpos st buf = Inr b"
  using send_pos_message_returns[OF assms] by (cases xstate) (simp_all add: transport_switch_def)

lemma transport_edge_returns:
  assumes "well_formed opts xpos"
  shows "\<exists>st1 b1. transport_edge opts xstate xpos st buf = Inr (st1, b1)"
proof -
  from transport_switch_returns[OF assms] obtain b
    where "transport_switch opts xstate xpos st buf = Inr b" by blast
  then show ?thesis by (simp add: transport_edge_def)
qed

lemma tick_scheduler_returns:
  assumes "well_formed opts xpos"
  shows "\<exists>st' b. tick_scheduler opts nframes xstate xpos st buf = Inr (st', b)"
proof -
  from tick_scheduler_cases[of opts nframes xstate xpos st buf]
  consider (gate) "tick_scheduler opts nframes xstate xpos st buf = Inr (st, buf)"
    | (fault) "tick_scheduler opts nframes xstate xpos st buf = Inl NonFiniteDouble"
    | (loop) spb offs where "samples_per_beat opts xpos = Tempo spb offs"
        "tick_scheduler opts nframes xstate xpos st buf =
          (case tick_loop (spb / 1 / 24) (frame xpos) offs nframes (mclk_last_tick st) buf of
             None \<Rightarrow> Inl NeverReturns
           | Some (t, b) \<Rightarrow> Inr (st\<lparr>mclk_last_tick := t\<rparr>, b))"
    by blast
  then show ?thesis
  proof cases
    case gate then show ?thesis by blast
  next
    case fault
    with assms show ?thesis
      by (auto simp: tick_scheduler_def well_formed_def split: if_splits tempo_choice.splits option.splits)
  next
    case loop
    with assms have "0 < spb / 1 / 24" by (simp add: well_formed_def)
    from tick_loop_total[OF this, of "frame xpos" offs nframes "mclk_last_tick st" buf]
    obtain t b where "tick_loop (spb / 1 / 24) (frame xpos) offs nframes (mclk_last_tick st) buf = Some (t, b)"
      by blast
    with loop(2) show ?thesis by simp
  qed
qed

lemma process_returns:
  assumes "well_formed opts xpos"
  shows "\<exists>st' evs. process opts nframes xstate xpos st = Inr (st', evs)"
proof (cases "client_state st = Run")
  case False
  then show ?thesis by (simp add: process_def)
next
  case True
  from located_update_returns[OF assms] obtain b0
    where b0: "located_update opts xstate xpos st = Inr b0" by blast
  from transport_edge_returns[OF assms] obtain st1 b1
    where e: "transport_edge opts xstate xpos (st\<lparr>last_xpos := remember_pos (last_xpos st) xpos\<rparr>) b0 = Inr (st1, b1)"
    by blast
  from tick_scheduler_returns[OF assms] obtain st' b
    where "tick_scheduler opts nframes xstate xpos st1 b1 = Inr (st', b)" by blast
  with True b0 e show ?thesis by (simp add: process_def)
qed

lemma process_Inr:
  assumes run: "client_state st = Run"
    and res: "process opts nframes xstate xpos st = Inr (st', evs)"
  shows "m_xstate st' = xstate \<and> client_state st' = Run
       \<and> count_msg MIDI_RT_STOP evs =
           (if xstate = JackTransportStopped \<and> m_xstate st \<noteq> JackTransportStopped
                 \<and> MSG_NO_TRANSPORT \<notin> msg_filter opts then 1 else 0)
       \<and> count_msg MIDI_RT_START evs + count_msg MIDI_RT_CONTINUE evs =
           (if xstate \<noteq> JackTransportStopped \<and> xstate \<noteq> m_xstate st
                 \<and> m_xstate st \<noteq> JackTransportStarting
                 \<and> MSG_NO_TRANSPORT \<notin> msg_filter opts then 1 else 0)
       \<and> (if xstate = m_xstate st then mclk_last_tick st else of_nat (frame xpos)) \<le> mclk_last_tick st'"
proof -
  from run res obtain b0 st1 b1 where
    b0: "located_update opts xstate xpos st = Inr b0" and
    e: "transport_edge opts xstate xpos (st\<lparr>last_xpos := remember_pos (last_xpos st) xpos\<rparr>) b0 = Inr (st1, b1)" and
    t: "tick_scheduler opts nframes xstate xpos st1 b1 = Inr (st', evs)"
    by (auto simp: process_def split: sum.splits)
  from tick_scheduler_Inr[OF t] obtain k cti offs where
    st': "st' = st1\<lparr>mclk_last_tick := mclk_last_tick st1 + of_nat k * cti\<rparr>" and
    evs: "evs = b1 @ scanned_ticks cti (frame xpos) offs (mclk_last_tick st1) k" and
    mono: "mclk_last_tick st1 \<le> mclk_last_tick st'" by blast
  note E = transport_edge_Inr[OF e]
  note z = located_update_count[OF b0]
  have c1: "count_msg MIDI_RT_STOP evs = count_msg MIDI_RT_STOP b1"
    and c2: "count_msg MIDI_RT_START evs = count_msg MIDI_RT_START b1"
    and c3: "count_msg MIDI_RT_CONTINUE evs = count_msg MIDI_RT_CONTINUE b1"
    unfolding evs using rt_distinct by (simp_all add: count_msg_append count_msg_scanned)
  have m: "m_xstate st' = xstate \<and> client_state st' = Run" unfolding st' using E run by simp
  have l: "(if xstate = m_xstate st then mclk_last_tick st else of_nat (frame xpos)) \<le> mclk_last_tick st'"
    using mono E by (simp split: if_splits)
  show ?thesis unfolding c1 c2 c3 using E z m l by simp
qed

section \<open>Transport edges over a run\<close>

lemma cycles_returns:
  assumes "\<forall>s\<in>set snaps. well_formed opts (snd s)"
  shows "\<exists>st' outs. cycles opts nframes st snaps = Inr (st', outs)"
  using assms
proof (induction snaps arbitrary: st)
  case Nil
  then show ?case by simp
next
  case (Cons s snaps)
  obtain xstate xpos where s: "s = (xstate, xpos)" by (cases s)
  from Cons.prems s have "well_formed opts xpos" by simp
  from process_returns[OF this] obtain st1 evs
    where p: "process opts nframes xstate xpos st = Inr (st1, evs)" by blast
  from Cons.IH[of st1] Cons.prems obtain st' outs
    where "cycles opts nframes st1 snaps = Inr (st', outs)" by auto
  with p s show ?case by simp
qed

lemma cycles_Inr_nth:
  assumes "client_state st = Run" "cycles opts nframes st snaps = Inr (st', outs)"
  shows "length outs = length snaps \<and>
    (\<forall>i<length snaps.
       count_msg MIDI_RT_STOP (outs ! i) =
         (if fst (snaps ! i) = JackTransportStopped
              \<and> (m_xstate st # map fst snaps) ! i \<noteq> JackTransportStopped
              \<and> MSG_NO_TRANSPORT \<notin> msg_filter opts then 1 else 0)
     \<and> start_or_continue (outs ! i) =
         (if fst (snaps ! i) \<noteq> JackTransportStopped
              \<and> fst (snaps ! i) \<noteq> (m_xstate st # map fst snaps) ! i
              \<and> (m_xstate st # map fst snaps) ! i \<noteq> JackTransportStarting
              \<and> MSG_NO_TRANSPORT \<notin> msg_filter opts then 1 else 0))"
  using assms
proof (induction snaps arbitrary: st outs)
  case Nil
  then show ?case by simp
next
  case (Cons s snaps)
  obtain xstate xpos where s: "s = (xstate, xpos)" by (cases s)
  from Cons.prems(2) s obtain st1 evs outs' where
    p: "process opts nframes xstate xpos st = Inr (st1, evs)" and
    c: "cycles opts nframes st1 snaps = Inr (st', outs')" and
    o: "outs = evs # outs'"
    by (auto split: sum.splits)
  note P = process_Inr[OF Cons.prems(1) p]
  from P have run1: "client_state st1 = Run" and m1: "m_xstate st1 = xstate" by simp_all
  note IH = Cons.IH[OF run1 c]
  show ?case
  proof (intro conjI allI impI)
    show "length outs = length (s # snaps)" using IH o by simp
  next
    fix i assume i: "i < length (s # snaps)"
    show "count_msg MIDI_RT_STOP (outs ! i) =
         (if fst ((s # snaps) ! i) = JackTransportStopped
              \<and> (m_xstate st # map fst (s # snaps)) ! i \<noteq> JackTransportStopped
              \<and> MSG_NO_TRANSPORT \<notin> msg_filter opts then 1 else 0)"
    proof (cases i)
      case 0
      with P s o show ?thesis by simp
    next
      case (Suc j)
      with i IH m1 s o show ?thesis by simp
    qed
  next
    fix i assume i: "i < length (s # snaps)"
    show "start_or_continue (outs ! i) =
         (if fst ((s # snaps) ! i) \<noteq> JackTransportStopped
              \<and> fst ((s # snaps) ! i) \<noteq> (m_xstate st # map fst (s # snaps)) ! i
              \<and> (m_xstate st # map fst (s # snaps)) ! i \<noteq> JackTransportStarting
              \<and> MSG_NO_TRANSPORT \<notin> msg_filter opts then 1 else 0)"
    proof (cases i)
      case 0
      with P s o show ?thesis by (simp add: start_or_continue_def)
    next
      case (Suc j)
      with i IH m1 s o show ?thesis by simp
    qed
  qed
qed

text \<open>
  Claim C2. For every sequence of per-cycle snapshots, with transport messages not
  suppressed (and every cycle returning): the run returns, a cycle emits exactly one
  Stop when the observed state has changed into Stopped and none otherwise, and over the
  cycles \<open>i..j\<close> of a passage from Stopped (the state before cycle \<open>i\<close>) through any number
  of Starting cycles to Rolling (cycle \<open>j\<close>) exactly one message of Start and Continue is
  emitted.
\<close>

theorem transport_edges_exactly_once:
  assumes "client_state st = Run" "MSG_NO_TRANSPORT \<notin> msg_filter opts"
    and "\<forall>s\<in>set snaps. well_formed opts (snd s)"
  shows "\<exists>st' outs. cycles opts nframes st snaps = Inr (st', outs) \<and> length outs = length snaps \<and>
    (\<forall>i<length snaps.
       count_msg MIDI_RT_STOP (outs ! i) =
         (if fst (snaps ! i) = JackTransportStopped
              \<and> (m_xstate st # map fst snaps) ! i \<noteq> JackTransportStopped then 1 else 0)) \<and>
    (\<forall>i j. i \<le> j \<and> j < length snaps
         \<and> (m_xstate st # map fst snaps) ! i = JackTransportStopped
         \<and> (\<forall>l. i \<le> l \<and> l < j \<longrightarrow> fst (snaps ! l) = JackTransportStarting)
         \<and> fst (snaps ! j) = JackTransportRolling
       \<longrightarrow> (\<Sum>l = i..j. start_or_continue (outs ! l)) = 1)"
proof -
  from cycles_returns[OF assms(3)] obtain st' outs
    where c: "cycles opts nframes st snaps = Inr (st', outs)" by blast
  note N = cycles_Inr_nth[OF assms(1) c]
  let ?prev = "\<lambda>i. (m_xstate st # map fst snaps) ! i"
  have stop: "\<forall>i<length snaps.
       count_msg MIDI_RT_STOP (outs ! i) =
         (if fst (snaps ! i) = JackTransportStopped \<and> ?prev i \<noteq> JackTransportStopped then 1 else 0)"
    using N assms(2) by simp
  have sc: "start_or_continue (outs ! i) =
         (if fst (snaps ! i) \<noteq> JackTransportStopped \<and> fst (snaps ! i) \<noteq> ?prev i
              \<and> ?prev i \<noteq> JackTransportStarting then 1 else 0)" if "i < length snaps" for i
    using N assms(2) that by simp
  have passage: "(\<Sum>l = i..j. start_or_continue (outs ! l)) = 1"
    if H: "i \<le> j \<and> j < length snaps \<and> ?prev i = JackTransportStopped
         \<and> (\<forall>l. i \<le> l \<and> l < j \<longrightarrow> fst (snaps ! l) = JackTransportStarting)
         \<and> fst (snaps ! j) = JackTransportRolling" for i j
  proof -
    have cur: "fst (snaps ! i) \<noteq> JackTransportStopped"
    proof (cases "i = j")
      case True with H show ?thesis by simp
    next
      case False with H have "fst (snaps ! i) = JackTransportStarting" by simp
      then show ?thesis by simp
    qed
    have first: "start_or_continue (outs ! i) = 1"
      using sc[of i] H cur by simp
    have later: "start_or_continue (outs ! l) = 0" if "l \<in> {Suc i..j}" for l
    proof -
      from that obtain k where k: "l = Suc k" "i \<le> k" "k < j" by (cases l) auto
      with H have "fst (snaps ! k) = JackTransportStarting" by simp
      moreover have "?prev l = fst (snaps ! k)" using k H by simp
      ultimately show ?thesis using sc[of l] that H by simp
    qed
    have "(\<Sum>l = i..j. start_or_continue (outs ! l))
        = start_or_continue (outs ! i) + (\<Sum>l = Suc i..j. start_or_continue (outs ! l))"
      using H by (simp add: sum.atLeast_Suc_atMost)
    also have "(\<Sum>l = Suc i..j. start_or_continue (outs ! l)) = 0"
      using later by simp
    finally show ?thesis using first by simp
  qed
  from c N stop passage show ?thesis by blast
qed

lemma well_formed_demo_run: "\<forall>s\<in>set demo_run. well_formed default_options (snd s)"
  by (simp add: demo_run_def well_formed_def samples_per_beat_def default_options_def
        sample_position_def bcnt_def double_to_int_def trunc_def)

theorem transport_edges_exactly_once_witness:
  "\<exists>st' outs. cycles default_options 512 initial_state demo_run = Inr (st', outs)
     \<and> count_msg MIDI_RT_STOP (outs ! 5) = 1
     \<and> (\<Sum>l = 1..3. start_or_continue (outs ! l)) = 1"
proof -
  have r: "client_state initial_state = Run" by (simp add: initial_state_def)
  have t: "MSG_NO_TRANSPORT \<notin> msg_filter default_options" by (simp add: default_options_def)
  from transport_edges_exactly_once[OF r t well_formed_demo_run, of 512]
  obtain st' outs where
    c: "cycles default_options 512 initial_state demo_run = Inr (st', outs)" and
    stop: "\<forall>i<length demo_run.
       count_msg MIDI_RT_STOP (outs ! i) =
         (if fst (demo_run ! i) = JackTransportStopped
              \<and> (m_xstate initial_state # map fst demo_run) ! i \<noteq> JackTransportStopped then 1 else 0)" and
    pass: "\<forall>i j. i \<le> j \<and> j < length demo_run
         \<and> (m_xstate initial_state # map fst demo_run) ! i = JackTransportStopped
         \<and> (\<forall>l. i \<le> l \<and> l < j \<longrightarrow> fst (demo_run ! l) = JackTransportStarting)
         \<and> fst (demo_run ! j) = JackTransportRolling
       \<longrightarrow> (\<Sum>l = i..j. start_or_continue (outs ! l)) = 1"
    by blast
  have "count_msg MIDI_RT_STOP (outs ! 5) = 1"
    using stop[rule_format, of 5] by (simp add: demo_run_def)
  moreover have "\<forall>l::nat. 1 \<le> l \<and> l < 3 \<longrightarrow> fst (demo_run ! l) = JackTransportStarting"
  proof (intro allI impI)
    fix l :: nat assume "1 \<le> l \<and> l < 3"
    then have "l = 1 \<or> l = 2" by arith
    then show "fst (demo_run ! l) = JackTransportStarting" by (auto simp: demo_run_def)
  qed
  then have "(\<Sum>l = 1..3. start_or_continue (outs ! l)) = 1"
    using pass[rule_format, of 1 3] by (simp add: demo_run_def)
  ultimately show ?thesis using c by blast
qed

section \<open>Messages on a state edge\<close>

lemma scanned_ticks_clock: "\<forall>e\<in>set (scanned_ticks cti xframe offs last_tick k). snd e = [MIDI_RT_CLOCK]"
  by (simp add: scanned_ticks_def)

lemma tick_scheduler_gate:
  assumes "(xstate \<noteq> JackTransportRolling \<and> MSG_NO_CONT_CLOCK \<in> msg_filter opts)
           \<or> MSG_NO_CLOCK \<in> msg_filter opts"
  shows "tick_scheduler opts nframes xstate xpos st buf = Inr (st, buf)"
  using assms by (auto simp: tick_scheduler_def)

lemma tick_scheduler_ticks:
  assumes "well_formed opts xpos"
  shows "\<exists>st' ticks. tick_scheduler opts nframes xstate xpos st buf = Inr (st', buf @ ticks)
           \<and> (\<forall>e\<in>set ticks. snd e = [MIDI_RT_CLOCK])
           \<and> ((xstate \<noteq> JackTransportRolling \<and> MSG_NO_CONT_CLOCK \<in> msg_filter opts)
               \<or> MSG_NO_CLOCK \<in> msg_filter opts \<longrightarrow> ticks = [])"
proof (cases "(xstate \<noteq> JackTransportRolling \<and> MSG_NO_CONT_CLOCK \<in> msg_filter opts)
           \<or> MSG_NO_CLOCK \<in> msg_filter opts")
  case True
  from tick_scheduler_gate[OF True, of nframes xpos st buf] show ?thesis
    by (intro exI[of _ st] exI[of _ "[]"]) simp
next
  case False
  from tick_scheduler_returns[OF assms] obtain st' b
    where r: "tick_scheduler opts nframes xstate xpos st buf = Inr (st', b)" by blast
  from tick_scheduler_Inr[OF r] obtain k cti offs
    where "b = buf @ scanned_ticks cti (frame xpos) offs (mclk_last_tick st) k" by blast
  with r False scanned_ticks_clock[of cti "frame xpos" offs "mclk_last_tick st" k] show ?thesis
    by blast
qed

lemma process_not_stopped:
  assumes "client_state st = Run" "xstate \<noteq> JackTransportStopped" "well_formed opts xpos"
  shows "\<exists>st1 b1 st' ticks.
      transport_edge opts xstate xpos (st\<lparr>last_xpos := remember_pos (last_xpos st) xpos\<rparr>) [] = Inr (st1, b1)
      \<and> process opts nframes xstate xpos st = Inr (st', b1 @ ticks)
      \<and> (\<forall>e\<in>set ticks. snd e = [MIDI_RT_CLOCK])
      \<and> ((xstate \<noteq> JackTransportRolling \<and> MSG_NO_CONT_CLOCK \<in> msg_filter opts)
               \<or> MSG_NO_CLOCK \<in> msg_filter opts \<longrightarrow> ticks = [])"
proof -
  have b0: "located_update opts xstate xpos st = Inr []"
    using assms(2) by (simp add: located_update_def)
  from transport_edge_returns[OF assms(3)] obtain st1 b1 where
    e: "transport_edge opts xstate xpos (st\<lparr>last_xpos := remember_pos (last_xpos st) xpos\<rparr>) [] = Inr (st1, b1)"
    by blast
  from tick_scheduler_ticks[OF assms(3), of nframes xstate st1 b1] obtain st' ticks where
    t: "tick_scheduler opts nframes xstate xpos st1 b1 = Inr (st', b1 @ ticks)"
    "\<forall>e\<in>set ticks. snd e = [MIDI_RT_CLOCK]"
    "(xstate \<noteq> JackTransportRolling \<and> MSG_NO_CONT_CLOCK \<in> msg_filter opts)
               \<or> MSG_NO_CLOCK \<in> msg_filter opts \<longrightarrow> ticks = []" by blast
  have "process opts nframes xstate xpos st = Inr (st', b1 @ ticks)"
    using assms(1) b0 e t(1) by (simp add: process_def)
  with e t(2,3) show ?thesis by blast
qed

lemma transport_edge_not_stopped:
  assumes "xstate \<noteq> JackTransportStopped" "xstate \<noteq> m_xstate st"
  shows "transport_edge opts xstate xpos st [] =
     Inr (st\<lparr>mclk_last_tick := of_nat (frame xpos), m_xstate := xstate\<rparr>,
          (if m_xstate st = JackTransportStarting \<or> MSG_NO_TRANSPORT \<in> msg_filter opts then []
           else [(0, [if frame xpos = 0 then MIDI_RT_START else MIDI_RT_CONTINUE])])
          @ (if xstate = JackTransportRolling \<and> MSG_NO_CLOCK \<notin> msg_filter opts
             then [(0, [MIDI_RT_CLOCK])] else []))"
  using assms by (cases xstate) (auto simp: transport_edge_def transport_switch_def send_rt_message_def)

lemma process_edge:
  assumes "client_state st = Run" "xstate \<noteq> JackTransportStopped" "xstate \<noteq> m_xstate st"
    and "well_formed opts xpos"
  shows "\<exists>st' ticks.
      process opts nframes xstate xpos st =
        Inr (st',
          ((if m_xstate st = JackTransportStarting \<or> MSG_NO_TRANSPORT \<in> msg_filter opts then []
            else [(0, [if frame xpos = 0 then MIDI_RT_START else MIDI_RT_CONTINUE])])
           @ (if xstate = JackTransportRolling \<and> MSG_NO_CLOCK \<notin> msg_filter opts
              then [(0, [MIDI_RT_CLOCK])] else []))
          @ ticks)
      \<and> m_xstate st' = xstate
      \<and> (\<forall>e\<in>set ticks. snd e = [MIDI_RT_CLOCK])
      \<and> ((xstate \<noteq> JackTransportRolling \<and> MSG_NO_CONT_CLOCK \<in> msg_filter opts)
               \<or> MSG_NO_CLOCK \<in> msg_filter opts \<longrightarrow> ticks = [])"
proof -
  from process_not_stopped[OF assms(1,2,4), of nframes] obtain st1 b1 st' ticks where
    e: "transport_edge opts xstate xpos (st\<lparr>last_xpos := remember_pos (last_xpos st) xpos\<rparr>) [] = Inr (st1, b1)"
    and p: "process opts nframes xstate xpos st = Inr (st', b1 @ ticks)"
    and t: "\<forall>e\<in>set ticks. snd e = [MIDI_RT_CLOCK]"
      "(xstate \<noteq> JackTransportRolling \<and> MSG_NO_CONT_CLOCK \<in> msg_filter opts)
               \<or> MSG_NO_CLOCK \<in> msg_filter opts \<longrightarrow> ticks = []"
    by blast
  have "xstate \<noteq> m_xstate (st\<lparr>last_xpos := remember_pos (last_xpos st) xpos\<rparr>)"
    using assms(3) by simp
  from transport_edge_not_stopped[OF assms(2) this, of opts xpos] e
  have b1: "b1 = (if m_xstate st = JackTransportStarting \<or> MSG_NO_TRANSPORT \<in> msg_filter opts then []
            else [(0, [if frame xpos = 0 then MIDI_RT_START else MIDI_RT_CONTINUE])])
           @ (if xstate = JackTransportRolling \<and> MSG_NO_CLOCK \<notin> msg_filter opts
              then [(0, [MIDI_RT_CLOCK])] else [])"
    by simp
  from process_Inr[OF assms(1) p] have "m_xstate st' = xstate" by simp
  with p t show ?thesis unfolding b1 by blast
qed

text \<open>
  Claim C5, as amended. With transport messages not suppressed, in a cycle that returns:
  on a change from Stopped into Rolling or into Starting the first event is one Start
  (frame 0) or Continue (any other frame) at offset 0, chosen by the frame of the
  snapshot alone; on the change into Rolling one Clock at offset 0 follows it immediately
  when clock messages are not suppressed, on the change into Starting no initial Clock
  does (what follows are the ticks of the scheduler, none unless clocks continue while
  not rolling); on a change from Starting into Rolling no Start and no Continue is
  emitted, only the Clock at offset 0 and the ticks of the scheduler.
\<close>

theorem start_or_continue_on_edge:
  assumes "client_state st = Run" "MSG_NO_TRANSPORT \<notin> msg_filter opts" "well_formed opts xpos"
  shows
   "(m_xstate st = JackTransportStopped \<longrightarrow>
       (\<exists>st' ticks. process opts nframes JackTransportRolling xpos st =
            Inr (st', (0, [if frame xpos = 0 then MIDI_RT_START else MIDI_RT_CONTINUE])
                      # (if MSG_NO_CLOCK \<in> msg_filter opts then [] else (0, [MIDI_RT_CLOCK]) # ticks))
          \<and> (\<forall>e\<in>set ticks. snd e = [MIDI_RT_CLOCK])))
  \<and> (m_xstate st = JackTransportStopped \<longrightarrow>
       (\<exists>st' ticks. process opts nframes JackTransportStarting xpos st =
            Inr (st', (0, [if frame xpos = 0 then MIDI_RT_START else MIDI_RT_CONTINUE]) # ticks)
          \<and> (\<forall>e\<in>set ticks. snd e = [MIDI_RT_CLOCK])
          \<and> (MSG_NO_CONT_CLOCK \<in> msg_filter opts \<or> MSG_NO_CLOCK \<in> msg_filter opts \<longrightarrow> ticks = [])))
  \<and> (m_xstate st = JackTransportStarting \<longrightarrow>
       (\<exists>st' ticks. process opts nframes JackTransportRolling xpos st =
            Inr (st', if MSG_NO_CLOCK \<in> msg_filter opts then [] else (0, [MIDI_RT_CLOCK]) # ticks)
          \<and> (\<forall>e\<in>set ticks. snd e = [MIDI_RT_CLOCK])))"
proof (intro conjI impI)
  assume m: "m_xstate st = JackTransportStopped"
  from process_edge[OF assms(1) _ _ assms(3), of JackTransportRolling nframes] m
  obtain st' ticks where
    p: "process opts nframes JackTransportRolling xpos st =
        Inr (st',
          ((if m_xstate st = JackTransportStarting \<or> MSG_NO_TRANSPORT \<in> msg_filter opts then []
            else [(0, [if frame xpos = 0 then MIDI_RT_START else MIDI_RT_CONTINUE])])
           @ (if JackTransportRolling = JackTransportRolling \<and> MSG_NO_CLOCK \<notin> msg_filter opts
              then [(0, [MIDI_RT_CLOCK])] else []))
          @ ticks)"
    and t: "\<forall>e\<in>set ticks. snd e = [MIDI_RT_CLOCK]"
      "MSG_NO_CLOCK \<in> msg_filter opts \<longrightarrow> ticks = []"
    by auto
  show "\<exists>st' ticks. process opts nframes JackTransportRolling xpos st =
            Inr (st', (0, [if frame xpos = 0 then MIDI_RT_START else MIDI_RT_CONTINUE])
                      # (if MSG_NO_CLOCK \<in> msg_filter opts then [] else (0, [MIDI_RT_CLOCK]) # ticks))
          \<and> (\<forall>e\<in>set ticks. snd e = [MIDI_RT_CLOCK])"
    by (intro exI[of _ st'] exI[of _ ticks]) (use m assms(2) p t in auto)
next
  assume m: "m_xstate st = JackTransportStopped"
  from process_edge[OF assms(1) _ _ assms(3), of JackTransportStarting nframes] m
  obtain st' ticks where
    p: "process opts nframes JackTransportStarting xpos st =
        Inr (st',
          ((if m_xstate st = JackTransportStarting \<or> MSG_NO_TRANSPORT \<in> msg_filter opts then []
            else [(0, [if frame xpos = 0 then MIDI_RT_START else MIDI_RT_CONTINUE])])
           @ (if JackTransportStarting = JackTransportRolling \<and> MSG_NO_CLOCK \<notin> msg_filter opts
              then [(0, [MIDI_RT_CLOCK])] else []))
          @ ticks)"
    and t: "\<forall>e\<in>set ticks. snd e = [MIDI_RT_CLOCK]"
      "MSG_NO_CONT_CLOCK \<in> msg_filter opts \<or> MSG_NO_CLOCK \<in> msg_filter opts \<longrightarrow> ticks = []"
    by auto
  show "\<exists>st' ticks. process opts nframes JackTransportStarting xpos st =
            Inr (st', (0, [if frame xpos = 0 then MIDI_RT_START else MIDI_RT_CONTINUE]) # ticks)
          \<and> (\<forall>e\<in>set ticks. snd e = [MIDI_RT_CLOCK])
          \<and> (MSG_NO_CONT_CLOCK \<in> msg_filter opts \<or> MSG_NO_CLOCK \<in> msg_filter opts \<longrightarrow> ticks = [])"
    by (intro exI[of _ st'] exI[of _ ticks]) (use m assms(2) p t in auto)
next
  assume m: "m_xstate st = JackTransportStarting"
  from process_edge[OF assms(1) _ _ assms(3), of JackTransportRolling nframes] m
  obtain st' ticks where
    p: "process opts nframes JackTransportRolling xpos st =
        Inr (st',
          ((if m_xstate st = JackTransportStarting \<or> MSG_NO_TRANSPORT \<in> msg_filter opts then []
            else [(0, [if frame xpos = 0 then MIDI_RT_START else MIDI_RT_CONTINUE])])
           @ (if JackTransportRolling = JackTransportRolling \<and> MSG_NO_CLOCK \<notin> msg_filter opts
              then [(0, [MIDI_RT_CLOCK])] else []))
          @ ticks)"
    and t: "\<forall>e\<in>set ticks. snd e = [MIDI_RT_CLOCK]"
      "MSG_NO_CLOCK \<in> msg_filter opts \<longrightarrow> ticks = []"
    by auto
  show "\<exists>st' ticks. process opts nframes JackTransportRolling xpos st =
            Inr (st', if MSG_NO_CLOCK \<in> msg_filter opts then [] else (0, [MIDI_RT_CLOCK]) # ticks)
          \<and> (\<forall>e\<in>set ticks. snd e = [MIDI_RT_CLOCK])"
    by (intro exI[of _ st'] exI[of _ ticks]) (use m p t in auto)
qed

lemmas cycle_defs = process_def located_update_def transport_edge_def transport_switch_def
  tick_scheduler_def samples_per_beat_def pos_changed_def remember_pos_def send_rt_message_def

lemma well_formed_sample: "well_formed default_options (sample_position f 1 1 0)"
  by (simp add: well_formed_def samples_per_beat_def default_options_def
        sample_position_def bcnt_def double_to_int_def trunc_def)

theorem start_or_continue_on_edge_witness:
  "\<exists>st' ticks. process default_options 512 JackTransportRolling (sample_position 0 1 1 0) initial_state
      = Inr (st', (0, [MIDI_RT_START]) # (0, [MIDI_RT_CLOCK]) # ticks)"
proof -
  have r: "client_state initial_state = Run" by (simp add: initial_state_def)
  have t: "MSG_NO_TRANSPORT \<notin> msg_filter default_options" by (simp add: default_options_def)
  have m: "m_xstate initial_state = JackTransportStopped" by (simp add: initial_state_def)
  have c: "MSG_NO_CLOCK \<notin> msg_filter default_options" by (simp add: default_options_def)
  have f: "frame (sample_position 0 1 1 0) = 0" by (simp add: sample_position_def)
  from start_or_continue_on_edge[OF r t well_formed_sample[of 0], of 512] m c f
  show ?thesis by auto
qed

text \<open>
  The claim as first stated fails on two edges: a change from Starting into Rolling
  emits the Clock alone, and a change from Stopped into Starting emits the Start with no
  Clock after it.
\<close>

theorem start_or_continue_counterexample:
  "map_sum id snd (process default_options 512 JackTransportRolling (sample_position 0 1 1 0)
      (initial_state\<lparr>m_xstate := JackTransportStarting\<rparr>)) = Inr [(0, [MIDI_RT_CLOCK])]
   \<and> map_sum id snd (process default_options 512 JackTransportStarting (sample_position 0 1 1 0)
      initial_state) = Inr [(0, [MIDI_RT_START])]"
  by (simp add: cycle_defs default_options_def sample_position_def initial_state_def
        tick_loop_stop llrint_def)

text \<open>
  Claim C6, as amended. With transport messages not suppressed, a change of the observed
  state from Rolling to Starting emits one Start (frame 0) or Continue at offset 0, as
  any other entry into Starting does; the edge that emits neither is the change from
  Starting to Rolling.
\<close>

theorem rolling_to_starting_emits:
  assumes "client_state st = Run" "MSG_NO_TRANSPORT \<notin> msg_filter opts" "well_formed opts xpos"
  shows
   "(m_xstate st = JackTransportRolling \<longrightarrow>
       (\<exists>st' ticks. process opts nframes JackTransportStarting xpos st =
            Inr (st', (0, [if frame xpos = 0 then MIDI_RT_START else MIDI_RT_CONTINUE]) # ticks)
          \<and> (\<forall>e\<in>set ticks. snd e = [MIDI_RT_CLOCK])
          \<and> (MSG_NO_CONT_CLOCK \<in> msg_filter opts \<or> MSG_NO_CLOCK \<in> msg_filter opts \<longrightarrow> ticks = [])))
  \<and> (m_xstate st = JackTransportStarting \<longrightarrow>
       (\<exists>st' evs. process opts nframes JackTransportRolling xpos st = Inr (st', evs)
          \<and> start_or_continue evs = 0))"
proof (intro conjI impI)
  assume m: "m_xstate st = JackTransportRolling"
  from process_edge[OF assms(1) _ _ assms(3), of JackTransportStarting nframes] m
  obtain st' ticks where
    p: "process opts nframes JackTransportStarting xpos st =
        Inr (st',
          ((if m_xstate st = JackTransportStarting \<or> MSG_NO_TRANSPORT \<in> msg_filter opts then []
            else [(0, [if frame xpos = 0 then MIDI_RT_START else MIDI_RT_CONTINUE])])
           @ (if JackTransportStarting = JackTransportRolling \<and> MSG_NO_CLOCK \<notin> msg_filter opts
              then [(0, [MIDI_RT_CLOCK])] else []))
          @ ticks)"
    and t: "\<forall>e\<in>set ticks. snd e = [MIDI_RT_CLOCK]"
      "MSG_NO_CONT_CLOCK \<in> msg_filter opts \<or> MSG_NO_CLOCK \<in> msg_filter opts \<longrightarrow> ticks = []"
    by auto
  show "\<exists>st' ticks. process opts nframes JackTransportStarting xpos st =
            Inr (st', (0, [if frame xpos = 0 then MIDI_RT_START else MIDI_RT_CONTINUE]) # ticks)
          \<and> (\<forall>e\<in>set ticks. snd e = [MIDI_RT_CLOCK])
          \<and> (MSG_NO_CONT_CLOCK \<in> msg_filter opts \<or> MSG_NO_CLOCK \<in> msg_filter opts \<longrightarrow> ticks = [])"
    by (intro exI[of _ st'] exI[of _ ticks]) (use m assms(2) p t in auto)
next
  assume m: "m_xstate st = JackTransportStarting"
  from process_returns[OF assms(3), of nframes JackTransportRolling st] obtain st' evs
    where p: "process opts nframes JackTransportRolling xpos st = Inr (st', evs)" by blast
  from process_Inr[OF assms(1) p] m have "start_or_continue evs = 0"
    by (simp add: start_or_continue_def)
  with p show "\<exists>st' evs. process opts nframes JackTransportRolling xpos st = Inr (st', evs)
          \<and> start_or_continue evs = 0" by blast
qed

theorem rolling_to_starting_emits_witness:
  "\<exists>st' ticks. process default_options 512 JackTransportStarting (sample_position 1000 1 1 0)
      (initial_state\<lparr>m_xstate := JackTransportRolling\<rparr>)
      = Inr (st', (0, [MIDI_RT_CONTINUE]) # ticks) \<and> ticks = []"
proof -
  have r: "client_state (initial_state\<lparr>m_xstate := JackTransportRolling\<rparr>) = Run"
    by (simp add: initial_state_def)
  have t: "MSG_NO_TRANSPORT \<notin> msg_filter default_options" by (simp add: default_options_def)
  have c: "MSG_NO_CONT_CLOCK \<in> msg_filter default_options" by (simp add: default_options_def)
  have f: "frame (sample_position 1000 1 1 0) \<noteq> 0" by (simp add: sample_position_def)
  from rolling_to_starting_emits[OF r t well_formed_sample[of 1000], of 512] c f
  show ?thesis by auto
qed

text \<open>
  The claim as first stated fails: from Rolling, a Starting snapshot at frame 1000 emits
  a Continue.
\<close>

theorem rolling_to_starting_counterexample:
  "map_sum id snd (process default_options 512 JackTransportStarting (sample_position 1000 1 1 0)
      (initial_state\<lparr>m_xstate := JackTransportRolling\<rparr>)) = Inr [(0, [MIDI_RT_CONTINUE])]"
  by (simp add: cycle_defs default_options_def sample_position_def initial_state_def)

section \<open>The tick scheduler in a cycle\<close>

lemma tick_scheduler_loop:
  assumes "xstate = JackTransportRolling \<or> MSG_NO_CONT_CLOCK \<notin> msg_filter opts"
    and "MSG_NO_CLOCK \<notin> msg_filter opts"
    and "samples_per_beat opts xpos = Tempo spb offs"
  shows "tick_scheduler opts nframes xstate xpos st buf =
     (case tick_loop (spb / 1 / 24) (frame xpos) offs nframes (mclk_last_tick st) buf of
        None \<Rightarrow> Inl NeverReturns
      | Some (t, b) \<Rightarrow> Inr (st\<lparr>mclk_last_tick := t\<rparr>, b))"
  using assms by (auto simp: tick_scheduler_def)






text \<open>
  Claim C4. When the scheduler runs (clock messages enabled, and the transport Rolling
  or clocks continuing while it is not), the tick interval of its scan comes from: the
  default tempo alone, if it is forced and positive; otherwise the beats per minute of
  the transport (not zero), if the snapshot has valid BBT fields; otherwise the default
  tempo, if it is positive; otherwise there is no scan: the scheduler returns with the
  state and the buffer as they were.
\<close>

theorem tempo_priority:
  assumes "xstate = JackTransportRolling \<or> MSG_NO_CONT_CLOCK \<notin> msg_filter opts"
    and "MSG_NO_CLOCK \<notin> msg_filter opts"
  shows
   "(force_bpm opts \<and> 0 < user_bpm opts \<longrightarrow>
       tick_scheduler opts nframes xstate xpos st buf =
         (case tick_loop (of_nat (frame_rate xpos) * 60 / user_bpm opts / 1 / 24)
                 (frame xpos) 0 nframes (mclk_last_tick st) buf of
            None \<Rightarrow> Inl NeverReturns
          | Some (t, b) \<Rightarrow> Inr (st\<lparr>mclk_last_tick := t\<rparr>, b)))
  \<and> (\<not> (force_bpm opts \<and> 0 < user_bpm opts) \<and> JackPositionBBT \<in> valid xpos
       \<and> beats_per_minute xpos \<noteq> 0 \<longrightarrow>
       tick_scheduler opts nframes xstate xpos st buf =
         (case tick_loop (of_nat (frame_rate xpos) * 60 / beats_per_minute xpos / 1 / 24)
                 (frame xpos) (if JackBBTFrameOffset \<in> valid xpos then bbt_offset xpos else 0)
                 nframes (mclk_last_tick st) buf of
            None \<Rightarrow> Inl NeverReturns
          | Some (t, b) \<Rightarrow> Inr (st\<lparr>mclk_last_tick := t\<rparr>, b)))
  \<and> (\<not> (force_bpm opts \<and> 0 < user_bpm opts) \<and> JackPositionBBT \<notin> valid xpos
       \<and> 0 < user_bpm opts \<longrightarrow>
       tick_scheduler opts nframes xstate xpos st buf =
         (case tick_loop (of_nat (frame_rate xpos) * 60 / user_bpm opts / 1 / 24)
                 (frame xpos) 0 nframes (mclk_last_tick st) buf of
            None \<Rightarrow> Inl NeverReturns
          | Some (t, b) \<Rightarrow> Inr (st\<lparr>mclk_last_tick := t\<rparr>, b)))
  \<and> (\<not> (force_bpm opts \<and> 0 < user_bpm opts) \<and> JackPositionBBT \<notin> valid xpos
       \<and> \<not> 0 < user_bpm opts \<longrightarrow>
       tick_scheduler opts nframes xstate xpos st buf = Inr (st, buf))"
proof (intro conjI impI)
  assume "force_bpm opts \<and> 0 < user_bpm opts"
  then have "samples_per_beat opts xpos = Tempo (of_nat (frame_rate xpos) * 60 / user_bpm opts) 0"
    by (simp add: samples_per_beat_def)
  from tick_scheduler_loop[OF assms this]
  show "tick_scheduler opts nframes xstate xpos st buf =
         (case tick_loop (of_nat (frame_rate xpos) * 60 / user_bpm opts / 1 / 24)
                 (frame xpos) 0 nframes (mclk_last_tick st) buf of
            None \<Rightarrow> Inl NeverReturns
          | Some (t, b) \<Rightarrow> Inr (st\<lparr>mclk_last_tick := t\<rparr>, b))" .
next
  assume "\<not> (force_bpm opts \<and> 0 < user_bpm opts) \<and> JackPositionBBT \<in> valid xpos
       \<and> beats_per_minute xpos \<noteq> 0"
  then have "samples_per_beat opts xpos =
      Tempo (of_nat (frame_rate xpos) * 60 / beats_per_minute xpos)
        (if JackBBTFrameOffset \<in> valid xpos then bbt_offset xpos else 0)"
    by (auto simp: samples_per_beat_def)
  from tick_scheduler_loop[OF assms this]
  show "tick_scheduler opts nframes xstate xpos st buf =
         (case tick_loop (of_nat (frame_rate xpos) * 60 / beats_per_minute xpos / 1 / 24)
                 (frame xpos) (if JackBBTFrameOffset \<in> valid xpos then bbt_offset xpos else 0)
                 nframes (mclk_last_tick st) buf of
            None \<Rightarrow> Inl NeverReturns
          | Some (t, b) \<Rightarrow> Inr (st\<lparr>mclk_last_tick := t\<rparr>, b))" .
next
  assume "\<not> (force_bpm opts \<and> 0 < user_bpm opts) \<and> JackPositionBBT \<notin> valid xpos
       \<and> 0 < user_bpm opts"
  then have "samples_per_beat opts xpos = Tempo (of_nat (frame_rate xpos) * 60 / user_bpm opts) 0"
    by (simp add: samples_per_beat_def)
  from tick_scheduler_loop[OF assms this]
  show "tick_scheduler opts nframes xstate xpos st buf =
         (case tick_loop (of_nat (frame_rate xpos) * 60 / user_bpm opts / 1 / 24)
                 (frame xpos) 0 nframes (mclk_last_tick st) buf of
            None \<Rightarrow> Inl NeverReturns
          | Some (t, b) \<Rightarrow> Inr (st\<lparr>mclk_last_tick := t\<rparr>, b))" .
next
  assume "\<not> (force_bpm opts \<and> 0 < user_bpm opts) \<and> JackPositionBBT \<notin> valid xpos
       \<and> \<not> 0 < user_bpm opts"
  then have "samples_per_beat opts xpos = NoTempo"
    by (simp add: samples_per_beat_def)
  then show "tick_scheduler opts nframes xstate xpos st buf = Inr (st, buf)"
    by (simp add: tick_scheduler_def)
qed

theorem tempo_priority_witness:
  "tick_scheduler forced_options 4096 JackTransportRolling
      ((sample_position 0 1 1 0)\<lparr>beats_per_minute := 140\<rparr>)
      (initial_state\<lparr>m_xstate := JackTransportRolling\<rparr>) []
   = Inr (initial_state\<lparr>m_xstate := JackTransportRolling, mclk_last_tick := 4000\<rparr>,
          [(2000, [MIDI_RT_CLOCK]), (4000, [MIDI_RT_CLOCK])])"
proof -
  let ?st = "initial_state\<lparr>m_xstate := JackTransportRolling\<rparr>"
  let ?x = "(sample_position 0 1 1 0)\<lparr>beats_per_minute := 140\<rparr>"
  have c: "MSG_NO_CLOCK \<notin> msg_filter forced_options" by (simp add: forced_options_def)
  have f: "force_bpm forced_options \<and> 0 < user_bpm forced_options" by (simp add: forced_options_def)
  from tempo_priority[OF disjI1[OF refl] c, of 4096 ?x ?st "[]"] f
  have "tick_scheduler forced_options 4096 JackTransportRolling ?x ?st [] =
         (case tick_loop (of_nat (frame_rate ?x) * 60 / user_bpm forced_options / 1 / 24)
                 (frame ?x) 0 4096 (mclk_last_tick ?st) [] of
            None \<Rightarrow> Inl NeverReturns
          | Some (t, b) \<Rightarrow> Inr (?st\<lparr>mclk_last_tick := t\<rparr>, b))"
    by blast
  then show ?thesis
    by (simp add: forced_options_def sample_position_def initial_state_def
          tick_loop_stop tick_loop_emit tick_loop_skip llrint_def)
qed

section \<open>Clock ticks over a run\<close>























section \<open>The analyzer: tempo from consecutive clocks\<close>






text \<open>
  Claim C10. The previous entry is all zero before the first entry is read, so the
  first clock entry, at the time \<open>t\<close>, is reported at once against the time 0: the tempo
  printed is \<open>sample rate * 60 / (24 * t)\<close> (a division by zero, not a finite tempo, when
  \<open>t = 0\<close>).
\<close>

theorem first_clock_entry:
  assumes "msg t = 0xF8"
  shows "snd (drain sr zero_timenfo (t # ts)) ! 0 =
     (if tme t = 0 then NotFinite else Bpm (real (unat sr) * 60 / (24 * real (unat (tme t)))),
      tme t)"
proof -
  have "bpm_report sr zero_timenfo t =
     (if tme t = 0 then NotFinite else Bpm (real (unat sr) * 60 / (24 * real (unat (tme t)))))"
  proof (cases "tme t = 0")
    case True
    then show ?thesis by (simp add: bpm_report_def zero_timenfo_def)
  next
    case False
    then have "(unsigned (tme t) :: real) \<noteq> 0" by (simp add: unsigned_eq_0_iff)
    with False show ?thesis
      unfolding bpm_report_def zero_timenfo_def Let_def by (simp add: mult.commute)
  qed
  with assms show ?thesis by (simp add: Let_def)
qed

theorem first_clock_entry_witness:
  "snd (drain 48000 zero_timenfo [\<lparr>msg = 0xF8, tme = 500\<rparr>]) ! 0 = (Bpm 240, 500)"
proof -
  have m: "msg \<lparr>msg = 0xF8, tme = 500\<rparr> = 0xF8" by simp
  from first_clock_entry[OF m, of 48000 "[]"] show ?thesis by simp
qed

end
